theory Spec2Isabelle
  imports Main "HOL-Library.AList"
begin

unbundle bit_operations_syntax

section \<open>Data model of \<open>src/index.ts\<close> (the variant with per-ID rights)\<close>

text \<open>
  The module keeps its state in module-level variables and reports changes by
  calling the subscribed callbacks. The embedding passes the state explicitly and
  records every callback invocation, in order, in the field \<open>calls\<close>.

  Conventions of the embedding:
  \<^item> a JavaScript object used as a dictionary is an association list in the order
    of \<open>Object.keys\<close>; \<open>k in o\<close> is \<open>map_of o k \<noteq> None\<close>, \<open>o[k] = v\<close> is
    \<open>AList.update k v o\<close> (an existing key keeps its place, a new key goes last),
    \<open>delete o[k]\<close> is \<open>AList.delete k o\<close>. A well-formed object has distinct keys;
  \<^item> a callback is known by its identity only (\<open>indexOf\<close> compares with \<open>===\<close>),
    so it is a number; calling it appends \<open>(callback, argument)\<close> to \<open>calls\<close>.
    Callbacks are observers: they neither throw nor call back into the module;
  \<^item> \<open>clone\<close> makes a deep copy; HOL values are immutable, so it is the identity;
  \<^item> a rights value from the server is an integer; \<open>&\<close> works on its 32-bit
    two's complement image, as JavaScript's \<open>ToInt32\<close> gives it;
  \<^item> \<open>RIGHTS_ALL_ID\<close> is imported from \<open>@ouroboros/brain\<close>; the functions that
    use it take it as their first argument \<open>allId\<close>;
  \<^item> the collaborators \<open>brain.read\<close> and \<open>brain.create\<close> are given by the way
    their promise ends, \<open>brain.session\<close> by the field \<open>session\<close>. Each
    continuation of a promise runs as one step, as in the single thread of
    JavaScript;
  \<^item> only own properties are modelled: names and ids are taken not to be
    properties that every object inherits (\<open>constructor\<close>, \<open>toString\<close>), nor
    strings of digits, which \<open>Object.keys\<close> would list before the others.
\<close>

datatype rightOption = Create | Read | Update | Delete

type_synonym callback = nat

type_synonym rightsStruct = "(rightOption \<times> bool) list"
type_synonym entityRights = "(string \<times> rightsStruct) list"
type_synonym permissionsMap = "(string \<times> entityRights) list"

type_synonym rightStruct = "(string \<times> int) list"
type_synonym rawPermissions = "(string \<times> rightStruct) list"

record userType =
  u_id :: string
  u_permissions :: "rawPermissions option"
  u_fields :: "(string \<times> string) list"

record signinStruct =
  email :: string
  passwd :: string
  portal :: "string option"

record signinReturn =
  sr_session :: string
  sr_user :: userType

record responseErrorStruct =
  code :: int
  msg :: string
  handle :: "callback option"

datatype arg =
    AUser "userType option"
  | APermissions permissionsMap
  | AEntities entityRights
  | ARights rightsStruct
  | AErrorJson int string
  | ANone

type_synonym event = "callback \<times> arg"

datatype jsvalue = JUndefined | JNull | JBool bool | JNum int | JStr string | JFun callback

datatype error = TypeError | Error string

datatype 'a outcome = Returned 'a | Threw error

datatype 'a ext = ExtResolves 'a | ExtRejects responseErrorStruct | ExtPending

datatype 'a promise = Resolved 'a | Rejected responseErrorStruct | Unsettled

datatype unsubscribe_closure =
    UnsubPermissions callback "string option" "string option"
  | UnsubUser callback

record subscribeReturn =
  data :: arg
  unsubscribe_fn :: unsubscribe_closure

record state =
  user :: "userType option"
  userSubscriptions :: "callback list"
  permissions :: permissionsMap
  permissionsSubscriptions :: "callback list"
  rightsSubscriptions :: "(string \<times> callback list) list"
  rightsAllSubscriptions :: "(string \<times> callback list) list"
  noSession :: "callback option"
  session :: "string option"
  calls :: "event list"

definition init_state :: state where
  "init_state = \<lparr> user = None, userSubscriptions = [], permissions = [],
     permissionsSubscriptions = [], rightsSubscriptions = [],
     rightsAllSubscriptions = [], noSession = None, session = None, calls = [] \<rparr>"

section \<open>Rights decoding\<close>

definition types_tbl :: "(rightOption \<times> int) list" where
  "types_tbl = [(Create, 0x01), (Read, 0x02), (Update, 0x04), (Delete, 0x08)]"

definition toInt32 :: "int \<Rightarrow> int" where
  "toInt32 v = (v + 2 ^ 31) mod 2 ^ 32 - 2 ^ 31"

definition js_and :: "int \<Rightarrow> int \<Rightarrow> int" where
  "js_and a b = toInt32 a AND toInt32 b"

definition clone :: "'a \<Rightarrow> 'a" where
  "clone x = x"

text \<open>The innermost loop of \<open>permissionsSet\<close>: start from \<open>{}\<close> and set the key
  of every right whose bit is in the value to \<open>true\<close>.\<close>

definition decodeRights :: "int \<Rightarrow> rightsStruct" where
  "decodeRights v =
     fold (\<lambda>(s, b) r. if js_and v b \<noteq> 0 then AList.update s True r else r) types_tbl []"

definition decodeEntities :: "rightStruct \<Rightarrow> entityRights" where
  "decodeEntities ids = fold (\<lambda>(i, v) e. AList.update i (decodeRights v) e) ids []"

definition decodePermissions :: "rawPermissions \<Rightarrow> permissionsMap" where
  "decodePermissions lst = fold (\<lambda>(n, ids) p. AList.update n (decodeEntities ids) p) lst []"

section \<open>Scope keys\<close>

definition scope_key :: "string \<Rightarrow> string \<Rightarrow> string" where
  "scope_key name i = name @ '':'' @ i"

text \<open>\<open>k.split(':')\<close>: the pieces between the colons, at least one piece.\<close>

fun split_colon :: "string \<Rightarrow> string list" where
  "split_colon [] = [[]]"
| "split_colon (c # cs) =
     (if c = CHR '':'' then [] # split_colon cs
      else (case split_colon cs of [] \<Rightarrow> [[c]] | p # ps \<Rightarrow> (c # p) # ps))"

text \<open>\<open>const [name, id] = k.split(':')\<close>, then the value read for the pair. A
  missing second piece is \<open>undefined\<close>, which as a property key is the string
  \<open>undefined\<close>.\<close>

definition rightsOf :: "permissionsMap \<Rightarrow> string \<Rightarrow> string \<Rightarrow> rightsStruct" where
  "rightsOf perms name i =
     (case map_of perms name of
        None \<Rightarrow> []
      | Some ents \<Rightarrow> (case map_of ents i of None \<Rightarrow> [] | Some r \<Rightarrow> clone r))"

definition keyRights :: "permissionsMap \<Rightarrow> string \<Rightarrow> rightsStruct" where
  "keyRights perms k =
     (let parts = split_colon k;
          name = hd parts;
          i = (case tl parts of [] \<Rightarrow> ''undefined'' | x # _ \<Rightarrow> x)
      in rightsOf perms name i)"

section \<open>Observer lists\<close>

text \<open>\<open>indexOf\<close> gives the first position of the callback or \<open>-1\<close>;
  \<open>splice(i, 1)\<close> removes the element at position \<open>i\<close>.\<close>

fun indexOf :: "callback list \<Rightarrow> callback \<Rightarrow> int" where
  "indexOf [] f = -1"
| "indexOf (x # xs) f =
     (if x = f then 0 else (let i = indexOf xs f in if i > -1 then i + 1 else -1))"

definition splice1 :: "int \<Rightarrow> 'a list \<Rightarrow> 'a list" where
  "splice1 i xs = take (nat i) xs @ drop (nat i + 1) xs"

section \<open>The operations\<close>

definition onNoSession :: "jsvalue \<Rightarrow> state \<Rightarrow> unit outcome \<times> state" where
  "onNoSession callback st =
     (case callback of
        JFun f \<Rightarrow> (Returned (), st\<lparr>noSession := Some f\<rparr>)
      | _ \<Rightarrow> (Threw (Error ''onNoSession() called with an invalid callback''), st))"

definition permissionsSubscribe ::
  "callback \<Rightarrow> string option \<Rightarrow> string option \<Rightarrow> state \<Rightarrow> subscribeReturn outcome \<times> state"
where
  "permissionsSubscribe callback name i st =
     (case name of
        None \<Rightarrow>
          (let oPermissions = APermissions (clone (permissions st)) in
           (Returned \<lparr> data = oPermissions,
                       unsubscribe_fn = UnsubPermissions callback None None \<rparr>,
            st\<lparr>permissionsSubscriptions := permissionsSubscriptions st @ [callback],
               calls := calls st @ [(callback, oPermissions)]\<rparr>))
      | Some n \<Rightarrow>
          (case i of
             None \<Rightarrow>
               (let st1 = (if map_of (rightsAllSubscriptions st) n = None
                           then st\<lparr>rightsAllSubscriptions :=
                                     AList.update n [] (rightsAllSubscriptions st)\<rparr>
                           else st)
                in case map_of (rightsSubscriptions st1) n of
                     None \<Rightarrow> (Threw TypeError, st1)
                   | Some fs \<Rightarrow>
                       (let oRights = AEntities
                              (case map_of (permissions st1) n of
                                 None \<Rightarrow> [] | Some ents \<Rightarrow> clone ents)
                        in (Returned \<lparr> data = oRights,
                                 unsubscribe_fn = UnsubPermissions callback (Some n) None \<rparr>,
                            st1\<lparr>rightsSubscriptions :=
                                   AList.update n (fs @ [callback]) (rightsSubscriptions st1),
                                 calls := calls st1 @ [(callback, oRights)]\<rparr>)))
           | Some d \<Rightarrow>
               (let sKey = scope_key n d;
                    fs = (case map_of (rightsSubscriptions st) sKey of
                            None \<Rightarrow> [] | Some l \<Rightarrow> l);
                    oRights = ARights (rightsOf (permissions st) n d)
                in (Returned \<lparr> data = oRights,
                         unsubscribe_fn = UnsubPermissions callback (Some n) (Some d) \<rparr>,
                    st\<lparr>rightsSubscriptions :=
                          AList.update sKey (fs @ [callback]) (rightsSubscriptions st),
                       calls := calls st @ [(callback, oRights)]\<rparr>))))"

definition permissionsUnsubscribe ::
  "string \<Rightarrow> callback \<Rightarrow> string option \<Rightarrow> string option \<Rightarrow> state \<Rightarrow> bool \<times> state"
where
  "permissionsUnsubscribe allId callback name i st =
     (case name of
        None \<Rightarrow>
          (let ix = indexOf (permissionsSubscriptions st) callback in
           if ix > -1
           then (True, st\<lparr>permissionsSubscriptions :=
                            splice1 ix (permissionsSubscriptions st)\<rparr>)
           else (False, st))
      | Some n \<Rightarrow>
          (let sID = (case i of None \<Rightarrow> allId | Some d \<Rightarrow> d);
               sKey = scope_key n sID
           in case map_of (rightsSubscriptions st) sKey of
                None \<Rightarrow> (False, st)
              | Some fs \<Rightarrow>
                  (let ix = indexOf fs callback in
                   if ix > -1
                   then (let fs' = splice1 ix fs in
                         (True, st\<lparr>rightsSubscriptions :=
                                  (if int (length fs') \<le> 0
                                   then AList.delete sKey (rightsSubscriptions st)
                                   else AList.update sKey fs' (rightsSubscriptions st))\<rparr>))
                   else (False, st))))"

definition permissionsSet :: "rawPermissions \<Rightarrow> state \<Rightarrow> state" where
  "permissionsSet lst st =
     (let perms = decodePermissions lst in
      st\<lparr>permissions := perms,
         calls := calls st
           @ map (\<lambda>f. (f, APermissions (clone perms))) (permissionsSubscriptions st)
           @ concat (map (\<lambda>(k, fs). map (\<lambda>f. (f, ARights (keyRights perms k))) fs)
                         (rightsSubscriptions st))\<rparr>)"

definition set_user :: "userType option \<Rightarrow> state \<Rightarrow> state" where
  "set_user u st =
     st\<lparr>user := u,
        calls := calls st @ map (\<lambda>f. (f, AUser (clone u))) (userSubscriptions st)\<rparr>"

definition update :: "userType option ext \<Rightarrow> state \<Rightarrow> userType promise \<times> state" where
  "update rd st =
     (case rd of
        ExtResolves dat \<Rightarrow>
          (case dat of
             Some u \<Rightarrow>
               (Resolved u,
                permissionsSet (case u_permissions u of None \<Rightarrow> [] | Some p \<Rightarrow> p)
                  (set_user (Some u) st))
           | None \<Rightarrow> (Unsettled, st))
      | ExtRejects e \<Rightarrow>
          (case handle e of
             Some h \<Rightarrow> (Unsettled, st\<lparr>calls := calls st @ [(h, AErrorJson (code e) (msg e))]\<rparr>)
           | None \<Rightarrow> (Rejected e, st))
      | ExtPending \<Rightarrow> (Unsettled, st))"

datatype signin_using = Token string | Credentials signinStruct

definition signin ::
  "signin_using \<Rightarrow> signinReturn option ext \<Rightarrow> userType option ext \<Rightarrow> state
     \<Rightarrow> signinReturn promise \<times> state"
where
  "signin u cr rd st =
     (case u of
        Token t \<Rightarrow>
          (case update rd (st\<lparr>session := Some t\<rparr>) of
             (Resolved usr, st') \<Rightarrow> (Resolved \<lparr> sr_session = t, sr_user = usr \<rparr>, st')
           | (_, st') \<Rightarrow> (Unsettled, st'))
      | Credentials c \<Rightarrow>
          (case cr of
             ExtResolves dat \<Rightarrow>
               (case dat of
                  Some d \<Rightarrow>
                    (case update rd (st\<lparr>session := Some (sr_session d)\<rparr>) of
                       (Resolved usr, st') \<Rightarrow>
                         (Resolved \<lparr> sr_session = sr_session d, sr_user = usr \<rparr>, st')
                     | (_, st') \<Rightarrow> (Unsettled, st'))
                | None \<Rightarrow> (Unsettled, st))
           | ExtRejects e \<Rightarrow> (Rejected e, st)
           | ExtPending \<Rightarrow> (Unsettled, st)))"

definition signout :: "bool ext \<Rightarrow> state \<Rightarrow> bool promise \<times> state" where
  "signout cr st =
     (case cr of
        ExtResolves dat \<Rightarrow>
          (Resolved dat,
           if dat then permissionsSet [] (set_user None (st\<lparr>session := None\<rparr>)) else st)
      | ExtRejects e \<Rightarrow> (Rejected e, st)
      | ExtPending \<Rightarrow> (Unsettled, st))"

definition signup :: "bool ext \<Rightarrow> state \<Rightarrow> bool promise \<times> state" where
  "signup cr st =
     (case cr of
        ExtResolves dat \<Rightarrow> (Resolved dat, st)
      | ExtRejects e \<Rightarrow> (Rejected e, st)
      | ExtPending \<Rightarrow> (Unsettled, st))"

definition subscribe :: "callback \<Rightarrow> state \<Rightarrow> subscribeReturn \<times> state" where
  "subscribe callback st =
     (let oUser = AUser (clone (user st)) in
      (\<lparr> data = oUser, unsubscribe_fn = UnsubUser callback \<rparr>,
       st\<lparr>userSubscriptions := userSubscriptions st @ [callback],
          calls := calls st @ [(callback, oUser)]\<rparr>))"

definition unsubscribe :: "callback \<Rightarrow> state \<Rightarrow> bool \<times> state" where
  "unsubscribe callback st =
     (let ix = indexOf (userSubscriptions st) callback in
      if ix > -1
      then (True, st\<lparr>userSubscriptions := splice1 ix (userSubscriptions st)\<rparr>)
      else (False, st))"

text \<open>The function registered with \<open>body.onNoSession\<close> when the module loads.\<close>

definition noSessionTrap :: "state \<Rightarrow> state" where
  "noSessionTrap st =
     (let st' = permissionsSet [] (set_user None (st\<lparr>session := None\<rparr>)) in
      case noSession st' of
        None \<Rightarrow> st'
      | Some f \<Rightarrow> st'\<lparr>calls := calls st' @ [(f, ANone)]\<rparr>)"

text \<open>The \<open>unsubscribe\<close> member of a returned handle: it calls the unsubscribe
  function with the arguments of the subscription and returns nothing.\<close>

fun run_unsubscribe :: "string \<Rightarrow> unsubscribe_closure \<Rightarrow> state \<Rightarrow> state" where
  "run_unsubscribe allId (UnsubPermissions f n i) st = snd (permissionsUnsubscribe allId f n i st)"
| "run_unsubscribe allId (UnsubUser f) st = snd (unsubscribe f st)"

section \<open>Sequences of calls\<close>

datatype op =
    OpOnNoSession jsvalue
  | OpPermissionsSubscribe callback "string option" "string option"
  | OpPermissionsUnsubscribe callback "string option" "string option"
  | OpSignin signin_using "signinReturn option ext" "userType option ext"
  | OpSignout "bool ext"
  | OpSignup "bool ext"
  | OpSubscribe callback
  | OpUnsubscribe callback
  | OpUpdate "userType option ext"
  | OpNoSessionTrap

fun step :: "string \<Rightarrow> op \<Rightarrow> state \<Rightarrow> state" where
  "step allId (OpOnNoSession v) st = snd (onNoSession v st)"
| "step allId (OpPermissionsSubscribe f n i) st = snd (permissionsSubscribe f n i st)"
| "step allId (OpPermissionsUnsubscribe f n i) st = snd (permissionsUnsubscribe allId f n i st)"
| "step allId (OpSignin u cr rd) st = snd (signin u cr rd st)"
| "step allId (OpSignout cr) st = snd (signout cr st)"
| "step allId (OpSignup cr) st = snd (signup cr st)"
| "step allId (OpSubscribe f) st = snd (subscribe f st)"
| "step allId (OpUnsubscribe f) st = snd (unsubscribe f st)"
| "step allId (OpUpdate rd) st = snd (update rd st)"
| "step allId OpNoSessionTrap st = noSessionTrap st"

definition run :: "string \<Rightarrow> op list \<Rightarrow> state \<Rightarrow> state" where
  "run allId ops st = fold (step allId) ops st"

text \<open>A registry of callbacks (\<open>_rightsSubscriptions\<close>, keyed by \<open>name:id\<close>, or
  \<open>_rightsAllSubscriptions\<close>, keyed by name) is in order when it is a well-formed
  object and none of its keys holds an empty list of callbacks.\<close>

definition registry_ok :: "(string \<times> callback list) list \<Rightarrow> bool" where
  "registry_ok rs = (distinct (map fst rs) \<and> (\<forall>k. map_of rs k \<noteq> Some []))"

text \<open>Every key of \<open>_rightsSubscriptions\<close> is made as \<open>name:id\<close>, so it has a colon.\<close>

definition keys_scoped :: "(string \<times> callback list) list \<Rightarrow> bool" where
  "keys_scoped rs = (\<forall>k. map_of rs k \<noteq> None \<longrightarrow> CHR '':'' \<in> set k)"

text \<open>States used as examples: a value for \<open>RIGHTS_ALL_ID\<close>, a subscription whose
  name has a colon, a subscription by name alone that finds a list under its
  name because a name and an id were joined to the same string before, and the
  state left by a subscription by name alone on the module as loaded.\<close>

definition example_all_id :: string where
  "example_all_id = ''012345679abc4defa0123456789abcde''"

definition colon_state :: state where
  "colon_state = snd (permissionsSubscribe 7 (Some ''a:b'') (Some ''c'') init_state)"

definition joined_state :: state where
  "joined_state = snd (permissionsSubscribe 1 (Some ''a'') (Some ''b'') init_state)"

definition name_only_state :: state where
  "name_only_state = snd (permissionsSubscribe 7 (Some ''a:b'') None joined_state)"

definition stale_state :: state where
  "stale_state = snd (permissionsSubscribe 7 (Some ''docs'') None init_state)"

section \<open>Facts about the building blocks\<close>

lemma toInt32_signed: "toInt32 v = signed_take_bit 31 v"
  by (simp add: toInt32_def signed_take_bit_eq_take_bit_shift take_bit_eq_mod)

lemma bit_toInt32: "n \<le> 31 \<Longrightarrow> bit (toInt32 v) n = bit v n"
  by (simp add: toInt32_signed bit_signed_take_bit_iff min.absorb2)

lemma toInt32_types: "toInt32 1 = 1" "toInt32 2 = 2" "toInt32 4 = 4" "toInt32 8 = 8"
  by (simp_all add: toInt32_def)

lemma js_and_bits:
  "(js_and v 1 \<noteq> 0) = bit v 0" "(js_and v 2 \<noteq> 0) = bit v 1"
  "(js_and v 4 \<noteq> 0) = bit v 2" "(js_and v 8 \<noteq> 0) = bit v 3"
  using and_exp_eq_0_iff_not_bit [of "toInt32 v" 0] and_exp_eq_0_iff_not_bit [of "toInt32 v" 1]
    and_exp_eq_0_iff_not_bit [of "toInt32 v" 2] and_exp_eq_0_iff_not_bit [of "toInt32 v" 3]
  by (simp_all add: js_and_def toInt32_types bit_toInt32)

lemma int_and_bits:
  "((v::int) AND 1 \<noteq> 0) = bit v 0" "(v AND 2 \<noteq> 0) = bit v 1"
  "(v AND 4 \<noteq> 0) = bit v 2" "(v AND 8 \<noteq> 0) = bit v 3"
  using and_exp_eq_0_iff_not_bit [of v 0] and_exp_eq_0_iff_not_bit [of v 1]
    and_exp_eq_0_iff_not_bit [of v 2] and_exp_eq_0_iff_not_bit [of v 3]
  by simp_all

lemma decodeRights_unfold:
  "decodeRights v =
     (if bit v 0 then [(Create, True)] else []) @ (if bit v 1 then [(Read, True)] else [])
     @ (if bit v 2 then [(Update, True)] else []) @ (if bit v 3 then [(Delete, True)] else [])"
  by (simp add: decodeRights_def types_tbl_def js_and_bits)

lemma fold_update_map_of:
  "distinct (map fst xs) \<Longrightarrow>
   map_of (fold (\<lambda>(k, v) a. AList.update k (f v) a) xs acc) k =
     (case map_of xs k of Some v \<Rightarrow> Some (f v) | None \<Rightarrow> map_of acc k)"
proof (induction xs arbitrary: acc)
  case Nil
  then show ?case by simp
next
  case (Cons x xs)
  obtain a b where x: "x = (a, b)" by (cases x)
  with Cons.prems have d: "distinct (map fst xs)" and a: "a \<notin> fst ` set xs" by auto
  from a have "map_of xs a = None" by (simp add: map_of_eq_None_iff)
  with Cons.IH [OF d, of "AList.update a (f b) acc"] x show ?case
    by (auto simp: update_conv' split: option.splits)
qed

lemma fold_update_keys:
  "fst ` set (fold (\<lambda>(k, v) a. AList.update k (f v) a) xs acc) = fst ` set xs \<union> fst ` set acc"
  by (induction xs arbitrary: acc) (auto simp: dom_update split: prod.splits)

lemma fold_update_distinct:
  "distinct (map fst acc) \<Longrightarrow>
   distinct (map fst (fold (\<lambda>(k, v) a. AList.update k (f v) a) xs acc))"
  by (induction xs arbitrary: acc) (auto simp: distinct_update split: prod.splits)

lemma indexOf_found: "(indexOf xs f > -1) = (f \<in> set xs)"
  by (induction xs) (auto simp: Let_def)

lemma splice1_indexOf: "f \<in> set xs \<Longrightarrow> splice1 (indexOf xs f) xs = remove1 f xs"
proof (induction xs)
  case Nil
  then show ?case by simp
next
  case (Cons x xs)
  show ?case
  proof (cases "x = f")
    case True
    then show ?thesis by (simp add: splice1_def)
  next
    case False
    with Cons.prems have m: "f \<in> set xs" by simp
    then have g: "indexOf xs f > -1" by (simp add: indexOf_found)
    then have n: "nat (indexOf xs f + 1) = Suc (nat (indexOf xs f))" by simp
    from Cons.IH [OF m] False g n show ?thesis
      by (simp add: splice1_def Let_def)
  qed
qed

lemma decodePermissions_lookup:
  assumes "distinct (map fst lst)" and "map_of lst n = Some ids"
    and "distinct (map fst ids)" and "map_of ids i = Some v"
  shows "rightsOf (decodePermissions lst) n i = decodeRights v"
proof -
  have "map_of (decodePermissions lst) n = Some (decodeEntities ids)"
    using assms(1,2) by (simp add: decodePermissions_def fold_update_map_of)
  moreover have "map_of (decodeEntities ids) i = Some (decodeRights v)"
    using assms(3,4) by (simp add: decodeEntities_def fold_update_map_of)
  ultimately show ?thesis by (simp add: rightsOf_def clone_def)
qed

lemma permissions_permissionsSet:
  "permissions (permissionsSet lst st) = decodePermissions lst"
  by (simp add: permissionsSet_def Let_def)

lemma rightsOf_empty: "rightsOf [] n i = []"
  by (simp add: rightsOf_def)

lemma keyRights_empty: "keyRights [] k = []"
  by (simp add: keyRights_def Let_def rightsOf_empty)

lemma decodePermissions_empty: "decodePermissions [] = []"
  by (simp add: decodePermissions_def)

lemma permissionsSet_empty:
  "permissionsSet [] st =
     st\<lparr>permissions := [],
        calls := calls st
          @ map (\<lambda>f. (f, APermissions [])) (permissionsSubscriptions st)
          @ concat (map (\<lambda>(k, fs). map (\<lambda>f. (f, ARights [])) fs) (rightsSubscriptions st))\<rparr>"
  by (simp add: permissionsSet_def decodePermissions_empty keyRights_empty clone_def)

text \<open>The three statements that sign the user out, as \<open>signout\<close> and the
  no-session trap both run them.\<close>

lemma signed_out:
  "permissionsSet [] (set_user None (st\<lparr>session := None\<rparr>)) =
     st\<lparr>session := None, user := None, permissions := [],
        calls := calls st
          @ map (\<lambda>f. (f, AUser None)) (userSubscriptions st)
          @ map (\<lambda>f. (f, APermissions [])) (permissionsSubscriptions st)
          @ concat (map (\<lambda>(k, fs). map (\<lambda>f. (f, ARights [])) fs) (rightsSubscriptions st))\<rparr>"
  by (simp add: permissionsSet_empty set_user_def clone_def)

lemma scoped_calls_mem:
  "(k, fs) \<in> set rs \<Longrightarrow> f \<in> set fs \<Longrightarrow>
   (f, ARights []) \<in> set (concat (map (\<lambda>(k, fs). map (\<lambda>f. (f, ARights [])) fs) rs))"
  by force

lemma filter_none_map:
  "a \<noteq> ANone \<Longrightarrow> filter (\<lambda>e. snd e = ANone) (map (\<lambda>f. (f, a)) xs) = []"
  by (induction xs) auto

lemma filter_none_scoped:
  "filter (\<lambda>e. snd e = ANone)
     (concat (map (\<lambda>(k, fs). map (\<lambda>f. (f, ARights [])) fs) rs)) = []"
  by (induction rs) (auto simp: filter_none_map)

lemma split_colon_free: "CHR '':'' \<notin> set s \<Longrightarrow> split_colon s = [s]"
  by (induction s) auto

lemma split_colon_append:
  "CHR '':'' \<notin> set n \<Longrightarrow> split_colon (n @ CHR '':'' # r) = n # split_colon r"
  by (induction n) auto

text \<open>Splitting a key gives back the name and the id it was made of when
  neither has a colon.\<close>

lemma keyRights_scope_key:
  "CHR '':'' \<notin> set n \<Longrightarrow> CHR '':'' \<notin> set i \<Longrightarrow>
   keyRights perms (scope_key n i) = rightsOf perms n i"
  by (simp add: keyRights_def scope_key_def split_colon_append split_colon_free)

text \<open>Setting the permissions calls every callback registered for a name and an
  id without colons with the rights of that name and id in the new map.\<close>

lemma keyed_calls_mem:
  "(k, fs) \<in> set rs \<Longrightarrow> f \<in> set fs \<Longrightarrow>
   (f, ARights (g k)) \<in> set (concat (map (\<lambda>(k, fs). map (\<lambda>f. (f, ARights (g k))) fs) rs))"
  by force

lemma permissionsSet_notifies_scope:
  assumes "CHR '':'' \<notin> set n" and "CHR '':'' \<notin> set i"
    and "map_of (rightsSubscriptions st) (scope_key n i) = Some fs" and "f \<in> set fs"
  shows "(f, ARights (rightsOf (decodePermissions lst) n i))
           \<in> set (drop (length (calls st)) (calls (permissionsSet lst st)))"
proof -
  from assms(3) have "(scope_key n i, fs) \<in> set (rightsSubscriptions st)"
    by (rule map_of_SomeD)
  from keyed_calls_mem [OF this assms(4), of "keyRights (decodePermissions lst)"]
  show ?thesis
    using assms(1,2) by (simp add: permissionsSet_def Let_def keyRights_scope_key)
qed

text \<open>The new map has the names of the raw map and no others, whatever the
  map was before.\<close>

lemma decodePermissions_keys: "fst ` set (decodePermissions lst) = fst ` set lst"
  by (simp add: decodePermissions_def fold_update_keys)

text \<open>What the unsubscribe functions do, with \<open>indexOf\<close> and \<open>splice\<close> read as
  the removal of the first occurrence.\<close>

lemma unsubscribe_effect:
  "unsubscribe f st =
     (if f \<in> set (userSubscriptions st)
      then (True, st\<lparr>userSubscriptions := remove1 f (userSubscriptions st)\<rparr>)
      else (False, st))"
  by (simp add: unsubscribe_def Let_def indexOf_found splice1_indexOf)

lemma permissionsUnsubscribe_all_effect:
  "permissionsUnsubscribe allId f None i st =
     (if f \<in> set (permissionsSubscriptions st)
      then (True, st\<lparr>permissionsSubscriptions := remove1 f (permissionsSubscriptions st)\<rparr>)
      else (False, st))"
  by (simp add: permissionsUnsubscribe_def Let_def indexOf_found splice1_indexOf)

lemma permissionsUnsubscribe_scoped_effect:
  "permissionsUnsubscribe allId f (Some n) (Some i) st =
     (case map_of (rightsSubscriptions st) (scope_key n i) of
        None \<Rightarrow> (False, st)
      | Some fs \<Rightarrow>
          if f \<in> set fs
          then (True, st\<lparr>rightsSubscriptions :=
                  (if remove1 f fs = []
                   then AList.delete (scope_key n i) (rightsSubscriptions st)
                   else AList.update (scope_key n i) (remove1 f fs) (rightsSubscriptions st))\<rparr>)
          else (False, st))"
  by (simp add: permissionsUnsubscribe_def Let_def indexOf_found splice1_indexOf
      split: option.splits)

lemma unsubscribe_twice:
  assumes "f \<in> set (userSubscriptions st)" and "f \<notin> set (remove1 f (userSubscriptions st))"
  shows "fst (unsubscribe f st) = True \<and> fst (unsubscribe f (snd (unsubscribe f st))) = False"
  using assms by (simp add: unsubscribe_effect)

lemma registry_ok_update:
  "registry_ok rs \<Longrightarrow> fs \<noteq> [] \<Longrightarrow> registry_ok (AList.update k fs rs)"
  by (simp add: registry_ok_def distinct_update update_conv')

lemma registry_ok_delete: "registry_ok rs \<Longrightarrow> registry_ok (AList.delete k rs)"
  by (simp add: registry_ok_def distinct_delete delete_conv')

lemma rs_permissionsSet: "rightsSubscriptions (permissionsSet lst st) = rightsSubscriptions st"
  by (simp add: permissionsSet_def Let_def)

lemma rs_set_user: "rightsSubscriptions (set_user u st) = rightsSubscriptions st"
  by (simp add: set_user_def)

lemma rs_update: "rightsSubscriptions (snd (update rd st)) = rightsSubscriptions st"
  by (simp add: update_def rs_permissionsSet rs_set_user split: ext.splits option.splits)

lemma rs_update_then:
  "rightsSubscriptions (snd (case update rd s of
       (Resolved usr, st') \<Rightarrow> (Resolved \<lparr> sr_session = t, sr_user = usr \<rparr>, st')
     | (_, st') \<Rightarrow> (Unsettled, st'))) = rightsSubscriptions s"
proof -
  obtain p s' where u: "update rd s = (p, s')" by (cases "update rd s")
  then have "rightsSubscriptions s' = rightsSubscriptions s"
    using rs_update [of rd s] by simp
  with u show ?thesis by (cases p) simp_all
qed

lemma rs_signin: "rightsSubscriptions (snd (signin u cr rd st)) = rightsSubscriptions st"
  by (simp add: signin_def rs_update_then split: signin_using.splits ext.splits option.splits)

lemma rs_signout: "rightsSubscriptions (snd (signout cr st)) = rightsSubscriptions st"
  by (simp add: signout_def rs_permissionsSet rs_set_user split: ext.splits)

lemma rs_signup: "rightsSubscriptions (snd (signup cr st)) = rightsSubscriptions st"
  by (simp add: signup_def split: ext.splits)

lemma rs_onNoSession: "rightsSubscriptions (snd (onNoSession v st)) = rightsSubscriptions st"
  by (simp add: onNoSession_def split: jsvalue.splits)

lemma rs_subscribe: "rightsSubscriptions (snd (subscribe f st)) = rightsSubscriptions st"
  by (simp add: subscribe_def Let_def)

lemma rs_unsubscribe: "rightsSubscriptions (snd (unsubscribe f st)) = rightsSubscriptions st"
  by (simp add: unsubscribe_def Let_def)

lemma rs_noSessionTrap: "rightsSubscriptions (noSessionTrap st) = rightsSubscriptions st"
  by (simp add: noSessionTrap_def Let_def rs_permissionsSet rs_set_user split: option.splits)

lemma registry_ok_permissionsSubscribe:
  "registry_ok (rightsSubscriptions st) \<Longrightarrow>
   registry_ok (rightsSubscriptions (snd (permissionsSubscribe f n i st)))"
  by (auto simp: permissionsSubscribe_def Let_def registry_ok_update split: option.splits)

lemma registry_ok_permissionsUnsubscribe:
  "registry_ok (rightsSubscriptions st) \<Longrightarrow>
   registry_ok (rightsSubscriptions (snd (permissionsUnsubscribe allId f n i st)))"
  by (auto simp: permissionsUnsubscribe_def Let_def registry_ok_update registry_ok_delete
      split: option.splits)

lemma registry_ok_step:
  "registry_ok (rightsSubscriptions st) \<Longrightarrow> registry_ok (rightsSubscriptions (step allId x st))"
  by (cases x)
    (simp_all add: registry_ok_permissionsSubscribe registry_ok_permissionsUnsubscribe
      rs_update rs_signin rs_signout rs_signup rs_onNoSession rs_subscribe rs_unsubscribe
      rs_noSessionTrap)

lemma registry_ok_run:
  "registry_ok (rightsSubscriptions st) \<Longrightarrow> registry_ok (rightsSubscriptions (run allId xs st))"
  unfolding run_def by (induction xs arbitrary: st) (simp_all add: registry_ok_step)

lemma registry_ok_init: "registry_ok (rightsSubscriptions init_state)"
  by (simp add: registry_ok_def init_state_def)


lemma keys_scoped_update:
  "keys_scoped rs \<Longrightarrow> CHR '':'' \<in> set k \<Longrightarrow> keys_scoped (AList.update k fs rs)"
  by (simp add: keys_scoped_def update_conv')

lemma keys_scoped_delete: "keys_scoped rs \<Longrightarrow> keys_scoped (AList.delete k rs)"
  by (simp add: keys_scoped_def delete_conv')

lemma keys_scoped_lookup:
  "keys_scoped rs \<Longrightarrow> map_of rs k = Some fs \<Longrightarrow> CHR '':'' \<in> set k"
  by (simp add: keys_scoped_def)

lemma keys_scoped_permissionsSubscribe:
  "keys_scoped (rightsSubscriptions st) \<Longrightarrow>
   keys_scoped (rightsSubscriptions (snd (permissionsSubscribe f n i st)))"
  by (auto simp: permissionsSubscribe_def Let_def scope_key_def
      intro!: keys_scoped_update dest: keys_scoped_lookup split: option.splits)

lemma keys_scoped_permissionsUnsubscribe:
  "keys_scoped (rightsSubscriptions st) \<Longrightarrow>
   keys_scoped (rightsSubscriptions (snd (permissionsUnsubscribe allId f n i st)))"
  by (auto simp: permissionsUnsubscribe_def Let_def scope_key_def
      intro!: keys_scoped_update keys_scoped_delete split: option.splits)

lemma keys_scoped_step:
  "keys_scoped (rightsSubscriptions st) \<Longrightarrow> keys_scoped (rightsSubscriptions (step allId x st))"
  by (cases x)
    (simp_all add: keys_scoped_permissionsSubscribe keys_scoped_permissionsUnsubscribe
      rs_update rs_signin rs_signout rs_signup rs_onNoSession rs_subscribe rs_unsubscribe
      rs_noSessionTrap)

lemma keys_scoped_run:
  "keys_scoped (rightsSubscriptions st) \<Longrightarrow> keys_scoped (rightsSubscriptions (run allId xs st))"
  unfolding run_def by (induction xs arbitrary: st) (simp_all add: keys_scoped_step)

lemma keys_scoped_init: "keys_scoped (rightsSubscriptions init_state)"
  by (simp add: keys_scoped_def init_state_def)

lemma name_only_throws:
  "map_of (rightsSubscriptions st) n = None \<Longrightarrow>
   permissionsSubscribe f (Some n) None st =
     (Threw TypeError,
      if map_of (rightsAllSubscriptions st) n = None
      then st\<lparr>rightsAllSubscriptions := AList.update n [] (rightsAllSubscriptions st)\<rparr>
      else st)"
  by (simp add: permissionsSubscribe_def Let_def)

lemma ra_permissionsSet:
  "rightsAllSubscriptions (permissionsSet lst st) = rightsAllSubscriptions st"
  by (simp add: permissionsSet_def Let_def)

lemma ra_set_user: "rightsAllSubscriptions (set_user u st) = rightsAllSubscriptions st"
  by (simp add: set_user_def)

lemma ra_update: "rightsAllSubscriptions (snd (update rd st)) = rightsAllSubscriptions st"
  by (simp add: update_def ra_permissionsSet ra_set_user split: ext.splits option.splits)

lemma ra_update_then:
  "rightsAllSubscriptions (snd (case update rd s of
       (Resolved usr, st') \<Rightarrow> (Resolved \<lparr> sr_session = t, sr_user = usr \<rparr>, st')
     | (_, st') \<Rightarrow> (Unsettled, st'))) = rightsAllSubscriptions s"
proof -
  obtain p s' where u: "update rd s = (p, s')" by (cases "update rd s")
  then have "rightsAllSubscriptions s' = rightsAllSubscriptions s"
    using ra_update [of rd s] by simp
  with u show ?thesis by (cases p) simp_all
qed

lemma ra_signin: "rightsAllSubscriptions (snd (signin u cr rd st)) = rightsAllSubscriptions st"
  by (simp add: signin_def ra_update_then split: signin_using.splits ext.splits option.splits)

lemma ra_signout: "rightsAllSubscriptions (snd (signout cr st)) = rightsAllSubscriptions st"
  by (simp add: signout_def ra_permissionsSet ra_set_user split: ext.splits)

lemma ra_signup: "rightsAllSubscriptions (snd (signup cr st)) = rightsAllSubscriptions st"
  by (simp add: signup_def split: ext.splits)

lemma ra_onNoSession: "rightsAllSubscriptions (snd (onNoSession v st)) = rightsAllSubscriptions st"
  by (simp add: onNoSession_def split: jsvalue.splits)

lemma ra_subscribe: "rightsAllSubscriptions (snd (subscribe f st)) = rightsAllSubscriptions st"
  by (simp add: subscribe_def Let_def)

lemma ra_unsubscribe: "rightsAllSubscriptions (snd (unsubscribe f st)) = rightsAllSubscriptions st"
  by (simp add: unsubscribe_def Let_def)

lemma ra_noSessionTrap: "rightsAllSubscriptions (noSessionTrap st) = rightsAllSubscriptions st"
  by (simp add: noSessionTrap_def Let_def ra_permissionsSet ra_set_user split: option.splits)

lemma ra_permissionsUnsubscribe:
  "rightsAllSubscriptions (snd (permissionsUnsubscribe allId f n i st)) = rightsAllSubscriptions st"
  by (simp add: permissionsUnsubscribe_def Let_def split: option.splits)

lemma stale_permissionsSubscribe:
  "map_of (rightsAllSubscriptions st) k = Some [] \<Longrightarrow>
   map_of (rightsAllSubscriptions (snd (permissionsSubscribe f n i st))) k = Some []"
  by (auto simp: permissionsSubscribe_def Let_def update_conv' split: option.splits)

lemma stale_step:
  "map_of (rightsAllSubscriptions st) k = Some [] \<Longrightarrow>
   map_of (rightsAllSubscriptions (step allId x st)) k = Some []"
  by (cases x)
    (simp_all add: stale_permissionsSubscribe ra_permissionsUnsubscribe ra_update ra_signin
      ra_signout ra_signup ra_onNoSession ra_subscribe ra_unsubscribe ra_noSessionTrap)

lemma stale_run:
  "map_of (rightsAllSubscriptions st) k = Some [] \<Longrightarrow>
   map_of (rightsAllSubscriptions (run allId xs st)) k = Some []"
  unfolding run_def by (induction xs arbitrary: st) (simp_all add: stale_step)

lemma reachable_no_bare_name:
  "CHR '':'' \<notin> set n \<Longrightarrow> map_of (rightsSubscriptions (run allId xs init_state)) n = None"
proof -
  assume c: "CHR '':'' \<notin> set n"
  have "keys_scoped (rightsSubscriptions (run allId xs init_state))"
    by (simp add: keys_scoped_run keys_scoped_init)
  with c show ?thesis
    by (cases "map_of (rightsSubscriptions (run allId xs init_state)) n")
      (auto dest: keys_scoped_lookup)
qed

text \<open>The registry \<open>_rightsSubscriptions\<close> alone is kept clean: after any sequence
  of calls none of its keys holds an empty list, removing the only callback of a
  key \<open>name:id\<close> deletes the key, and the next subscription for that name and id
  starts a list of its own.\<close>

lemma rightsSubscriptions_cleanup:
  "registry_ok (rightsSubscriptions (run allId xs init_state))
   \<and> (map_of (rightsSubscriptions st) (scope_key n i) = Some [f] \<longrightarrow>
        (let r = permissionsUnsubscribe allId f (Some n) (Some i) st;
             st1 = snd r;
             st2 = snd (permissionsSubscribe g (Some n) (Some i) st1)
         in fst r = True
            \<and> scope_key n i \<notin> fst ` set (rightsSubscriptions st1)
            \<and> map_of (rightsSubscriptions st2) (scope_key n i) = Some [g]))"
proof -
  have a: "registry_ok (rightsSubscriptions (run allId xs init_state))"
    by (simp add: registry_ok_run registry_ok_init)
  have b: "map_of (rightsSubscriptions st) (scope_key n i) = Some [f] \<longrightarrow>
        (let r = permissionsUnsubscribe allId f (Some n) (Some i) st;
             st1 = snd r;
             st2 = snd (permissionsSubscribe g (Some n) (Some i) st1)
         in fst r = True
            \<and> scope_key n i \<notin> fst ` set (rightsSubscriptions st1)
            \<and> map_of (rightsSubscriptions st2) (scope_key n i) = Some [g])"
  proof
    assume h: "map_of (rightsSubscriptions st) (scope_key n i) = Some [f]"
    have u: "permissionsUnsubscribe allId f (Some n) (Some i) st =
        (True, st\<lparr>rightsSubscriptions := AList.delete (scope_key n i) (rightsSubscriptions st)\<rparr>)"
      using h by (simp add: permissionsUnsubscribe_def Let_def splice1_def)
    have m: "map_of (AList.delete (scope_key n i) (rightsSubscriptions st)) (scope_key n i) = None"
      by (simp add: delete_conv')
    show "(let r = permissionsUnsubscribe allId f (Some n) (Some i) st;
             st1 = snd r;
             st2 = snd (permissionsSubscribe g (Some n) (Some i) st1)
         in fst r = True
            \<and> scope_key n i \<notin> fst ` set (rightsSubscriptions st1)
            \<and> map_of (rightsSubscriptions st2) (scope_key n i) = Some [g])"
      unfolding Let_def u using m delete_notin_dom [of "scope_key n i" "rightsSubscriptions st"]
      by (simp add: permissionsSubscribe_def Let_def update_conv')
  qed
  from a b show ?thesis by blast
qed

lemma rightsSubscriptions_cleanup_example:
  "map_of (rightsSubscriptions
        (run ''*'' [OpPermissionsSubscribe 1 (Some ''docs'') (Some ''e1'')] init_state))
        (scope_key ''docs'' ''e1'') = Some [1]
   \<and> rightsSubscriptions (run ''*'' [OpPermissionsSubscribe 1 (Some ''docs'') (Some ''e1''),
          OpPermissionsUnsubscribe 1 (Some ''docs'') (Some ''e1'')] init_state) = []
   \<and> rightsSubscriptions (run ''*'' [OpPermissionsSubscribe 1 (Some ''docs'') (Some ''e1''),
          OpPermissionsUnsubscribe 1 (Some ''docs'') (Some ''e1''),
          OpPermissionsSubscribe 2 (Some ''docs'') (Some ''e1'')] init_state) = [(''docs:e1'', [2])]"
  using rightsSubscriptions_cleanup [of "''*''" "[OpPermissionsSubscribe 1 (Some ''docs'') (Some ''e1'')]"
      "run ''*'' [OpPermissionsSubscribe 1 (Some ''docs'') (Some ''e1'')] init_state"
      "''docs''" "''e1''" 1 2]
  by (simp add: run_def permissionsSubscribe_def permissionsUnsubscribe_def init_state_def
      scope_key_def Let_def splice1_def rightsOf_def)

text \<open>A callback subscribed with a name and \<open>RIGHTS_ALL_ID\<close> is removed by
  unsubscribing with the name and \<open>RIGHTS_ALL_ID\<close> and by unsubscribing with the
  name alone, which are the same call.\<close>

lemma all_id_unsubscribe:
  "(let key = scope_key n allId;
        old = (case map_of (rightsSubscriptions st) key of None \<Rightarrow> [] | Some l \<Rightarrow> l);
        r = permissionsSubscribe f (Some n) (Some allId) st;
        st1 = snd r;
        u = permissionsUnsubscribe allId f (Some n) None st1
    in (\<exists>h. fst r = Returned h \<and> unsubscribe_fn h = UnsubPermissions f (Some n) (Some allId))
       \<and> map_of (rightsSubscriptions st1) key = Some (old @ [f])
       \<and> permissionsUnsubscribe allId f (Some n) (Some allId) st1 = u
       \<and> fst u = True
       \<and> map_of (rightsSubscriptions (snd u)) key =
           (if remove1 f (old @ [f]) = [] then None else Some (remove1 f (old @ [f])))
       \<and> (f \<notin> set old \<longrightarrow> remove1 f (old @ [f]) = old))"
proof -
  define key where "key = scope_key n allId"
  define old where "old = (case map_of (rightsSubscriptions st) key of None \<Rightarrow> [] | Some l \<Rightarrow> l)"
  define st1 where "st1 = snd (permissionsSubscribe f (Some n) (Some allId) st)"
  define u where "u = permissionsUnsubscribe allId f (Some n) None st1"
  have r: "\<exists>h. fst (permissionsSubscribe f (Some n) (Some allId) st) = Returned h
      \<and> unsubscribe_fn h = UnsubPermissions f (Some n) (Some allId)"
    by (simp add: permissionsSubscribe_def Let_def)
  have rs1: "rightsSubscriptions st1 = AList.update key (old @ [f]) (rightsSubscriptions st)"
    by (simp add: st1_def permissionsSubscribe_def Let_def key_def old_def)
  then have m1: "map_of (rightsSubscriptions st1) key = Some (old @ [f])"
    by (simp add: update_conv')
  have e: "permissionsUnsubscribe allId f (Some n) (Some allId) st1 = u"
    by (simp add: u_def permissionsUnsubscribe_def)
  have mem: "f \<in> set (old @ [f])" by simp
  have ix: "indexOf (old @ [f]) f > -1"
    using mem by (simp only: indexOf_found)
  have sp: "splice1 (indexOf (old @ [f]) f) (old @ [f]) = remove1 f (old @ [f])"
    using mem by (rule splice1_indexOf)
  have u1: "fst u = True"
    using m1 ix by (simp add: u_def permissionsUnsubscribe_def Let_def key_def)
  have u2: "map_of (rightsSubscriptions (snd u)) key =
           (if remove1 f (old @ [f]) = [] then None else Some (remove1 f (old @ [f])))"
    using m1 ix sp
    by (simp add: u_def permissionsUnsubscribe_def Let_def key_def [symmetric]
        update_conv' delete_conv' del: remove1_append)
  have i: "f \<notin> set old \<longrightarrow> remove1 f (old @ [f]) = old"
    by (simp add: remove1_append)
  from r m1 e u1 u2 i show ?thesis
    unfolding Let_def key_def [symmetric] old_def [symmetric] st1_def [symmetric] u_def [symmetric]
    by blast
qed

section \<open>Claims\<close>

text \<open>
  C1. Decoding a non-negative integer \<open>v\<close> of bit flags, as \<open>permissionsSet\<close> does
  for every entry of the raw map, gives the rights whose bit is set in \<open>v\<close> under
  create = 0x01, read = 0x02, update = 0x04, delete = 0x08, each mapped to
  \<open>true\<close>; no key is mapped to \<open>false\<close>. 0x05 decodes to create and update, 0 to
  the empty object and 0x0F to all four rights.
\<close>

theorem decodeRights_exact:
  assumes "0 \<le> v"
  shows "(\<forall>s b. map_of types_tbl s = Some b \<longrightarrow>
            map_of (decodeRights v) s = (if v AND b \<noteq> 0 then Some True else None))
       \<and> (\<forall>s. (s, False) \<notin> set (decodeRights v))
       \<and> (distinct (map fst lst) \<and> map_of lst n = Some ids
            \<and> distinct (map fst ids) \<and> map_of ids i = Some v
          \<longrightarrow> rightsOf (permissions (permissionsSet lst st)) n i = decodeRights v)
       \<and> decodeRights 0x05 = [(Create, True), (Update, True)]
       \<and> decodeRights 0 = []
       \<and> decodeRights 0x0F = [(Create, True), (Read, True), (Update, True), (Delete, True)]"
proof -
  have a: "\<forall>s b. map_of types_tbl s = Some b \<longrightarrow>
            map_of (decodeRights v) s = (if v AND b \<noteq> 0 then Some True else None)"
  proof (intro allI impI)
    fix s b
    assume "map_of types_tbl s = Some b"
    then show "map_of (decodeRights v) s = (if v AND b \<noteq> 0 then Some True else None)"
      by (cases s) (auto simp: types_tbl_def decodeRights_unfold int_and_bits)
  qed
  have b: "\<forall>s. (s, False) \<notin> set (decodeRights v)"
    by (simp add: decodeRights_unfold)
  have c: "distinct (map fst lst) \<and> map_of lst n = Some ids
            \<and> distinct (map fst ids) \<and> map_of ids i = Some v
          \<longrightarrow> rightsOf (permissions (permissionsSet lst st)) n i = decodeRights v"
    by (simp add: permissions_permissionsSet decodePermissions_lookup)
  have d: "decodeRights 0x05 = [(Create, True), (Update, True)]"
    by (simp add: decodeRights_unfold)
  have e: "decodeRights 0 = []"
    by (simp add: decodeRights_unfold)
  have f: "decodeRights 0x0F = [(Create, True), (Read, True), (Update, True), (Delete, True)]"
    by (simp add: decodeRights_unfold)
  from a b c d e f show ?thesis by blast
qed

theorem decodeRights_exact_witness:
  "(0::int) \<le> 6
   \<and> map_of types_tbl Update = Some 4
   \<and> map_of (decodeRights 6) Update = Some True
   \<and> map_of (decodeRights 6) Create = None
   \<and> rightsOf (permissions (permissionsSet [(''docs'', [(''e1'', 6)])] init_state))
        ''docs'' ''e1'' = [(Read, True), (Update, True)]"
proof -
  have h: "(0::int) \<le> 6" by simp
  note t = decodeRights_exact [OF h, of "[(''docs'', [(''e1'', 6)])]" "''docs''"
      "[(''e1'', 6)]" "''e1''" init_state]
  have u: "map_of types_tbl Update = Some 4" and c: "map_of types_tbl Create = Some 1"
    by (simp_all add: types_tbl_def)
  from t u have "map_of (decodeRights 6) Update = (if (6::int) AND 4 \<noteq> 0 then Some True else None)"
    by blast
  then have 1: "map_of (decodeRights 6) Update = Some True" by simp
  from t c have "map_of (decodeRights 6) Create = (if (6::int) AND 1 \<noteq> 0 then Some True else None)"
    by blast
  then have 2: "map_of (decodeRights 6) Create = None" by simp
  from t have "rightsOf (permissions (permissionsSet [(''docs'', [(''e1'', 6)])] init_state))
        ''docs'' ''e1'' = decodeRights 6" by simp
  then have 3: "rightsOf (permissions (permissionsSet [(''docs'', [(''e1'', 6)])] init_state))
        ''docs'' ''e1'' = [(Read, True), (Update, True)]"
    by (simp add: decodeRights_unfold)
  from h u 1 2 3 show ?thesis by blast
qed

text \<open>
  C2. Subscribing to a permission by name alone, in any state the module can
  reach and for any name without a colon, throws a \<open>TypeError\<close>: the callback is
  neither called nor added to any list, and the only change is an empty list
  under the name in \<open>_rightsAllSubscriptions\<close>. The claim asks for the callback to
  be appended and called once.
\<close>

theorem name_only_subscribe_throws:
  assumes "CHR '':'' \<notin> set n"
  shows "(let st = run allId xs init_state;
              r = permissionsSubscribe f (Some n) None st
          in fst r = Threw TypeError
             \<and> calls (snd r) = calls st
             \<and> rightsSubscriptions (snd r) = rightsSubscriptions st
             \<and> snd r = (if map_of (rightsAllSubscriptions st) n = None
                        then st\<lparr>rightsAllSubscriptions :=
                                  AList.update n [] (rightsAllSubscriptions st)\<rparr>
                        else st))"
proof -
  define st where "st = run allId xs init_state"
  have "keys_scoped (rightsSubscriptions st)"
    by (simp add: st_def keys_scoped_run keys_scoped_init)
  with assms have "map_of (rightsSubscriptions st) n = None"
    by (cases "map_of (rightsSubscriptions st) n") (auto dest: keys_scoped_lookup)
  then have "permissionsSubscribe f (Some n) None st =
     (Threw TypeError,
      if map_of (rightsAllSubscriptions st) n = None
      then st\<lparr>rightsAllSubscriptions := AList.update n [] (rightsAllSubscriptions st)\<rparr>
      else st)"
    by (rule name_only_throws)
  then show ?thesis
    unfolding Let_def st_def [symmetric] by simp
qed

theorem name_only_subscribe_throws_witness:
  "CHR '':'' \<notin> set ''docs''
   \<and> permissionsSubscribe 7 (Some ''docs'') None init_state =
       (Threw TypeError, init_state\<lparr>rightsAllSubscriptions := [(''docs'', [])]\<rparr>)
   \<and> calls (snd (permissionsSubscribe 7 (Some ''docs'') None init_state)) = []"
proof -
  have h: "CHR '':'' \<notin> set ''docs''" by simp
  from name_only_subscribe_throws [OF h, where f = 7 and allId = "''*''" and xs = "[]"] h
  show ?thesis
    by (simp add: run_def Let_def init_state_def permissionsSubscribe_def)
qed

text \<open>
  C3. In any state the module can reach and for any name without a colon,
  subscribing with the name and \<open>RIGHTS_ALL_ID\<close> returns a handle, appends the
  callback to the list under \<open>name:RIGHTS_ALL_ID\<close> and calls it once, while
  subscribing with the name alone throws a \<open>TypeError\<close>, registers the callback
  under no key and never calls it. The two forms do not share a key, and the
  second returns no \<open>unsubscribe\<close>.
\<close>

theorem name_only_other_key:
  assumes "CHR '':'' \<notin> set n"
  shows "(let st = run allId xs init_state;
              key = scope_key n allId;
              old = (case map_of (rightsSubscriptions st) key of None \<Rightarrow> [] | Some l \<Rightarrow> l);
              r = permissionsSubscribe f (Some n) (Some allId) st;
              r' = permissionsSubscribe f (Some n) None st
          in (\<exists>h. fst r = Returned h
                 \<and> unsubscribe_fn h = UnsubPermissions f (Some n) (Some allId))
             \<and> map_of (rightsSubscriptions (snd r)) key = Some (old @ [f])
             \<and> calls (snd r) = calls st @ [(f, ARights (rightsOf (permissions st) n allId))]
             \<and> fst r' = Threw TypeError
             \<and> rightsSubscriptions (snd r') = rightsSubscriptions st
             \<and> map_of (rightsSubscriptions (snd r')) key \<noteq> Some (old @ [f])
             \<and> calls (snd r') = calls st)"
proof -
  define st where "st = run allId xs init_state"
  define key where "key = scope_key n allId"
  define old where "old = (case map_of (rightsSubscriptions st) key of None \<Rightarrow> [] | Some l \<Rightarrow> l)"
  have r: "\<exists>h. fst (permissionsSubscribe f (Some n) (Some allId) st) = Returned h
      \<and> unsubscribe_fn h = UnsubPermissions f (Some n) (Some allId)"
    by (simp add: permissionsSubscribe_def Let_def)
  have m: "map_of (rightsSubscriptions (snd (permissionsSubscribe f (Some n) (Some allId) st))) key
      = Some (old @ [f])"
    by (simp add: permissionsSubscribe_def Let_def key_def old_def update_conv')
  have c: "calls (snd (permissionsSubscribe f (Some n) (Some allId) st))
      = calls st @ [(f, ARights (rightsOf (permissions st) n allId))]"
    by (simp add: permissionsSubscribe_def Let_def)
  from assms have "map_of (rightsSubscriptions st) n = None"
    unfolding st_def by (rule reachable_no_bare_name)
  then have t: "permissionsSubscribe f (Some n) None st =
     (Threw TypeError,
      if map_of (rightsAllSubscriptions st) n = None
      then st\<lparr>rightsAllSubscriptions := AList.update n [] (rightsAllSubscriptions st)\<rparr>
      else st)"
    by (rule name_only_throws)
  have t1: "fst (permissionsSubscribe f (Some n) None st) = Threw TypeError"
    and t2: "rightsSubscriptions (snd (permissionsSubscribe f (Some n) None st))
         = rightsSubscriptions st"
    and t3: "calls (snd (permissionsSubscribe f (Some n) None st)) = calls st"
    by (simp_all add: t)
  have "map_of (rightsSubscriptions st) key \<noteq> Some (old @ [f])"
    by (cases "map_of (rightsSubscriptions st) key") (simp_all add: old_def)
  with t2 have t4: "map_of (rightsSubscriptions (snd (permissionsSubscribe f (Some n) None st))) key
      \<noteq> Some (old @ [f])" by simp
  from r m c t1 t2 t3 t4 show ?thesis
    unfolding Let_def st_def [symmetric] key_def [symmetric] old_def [symmetric] by blast
qed

theorem name_only_other_key_witness:
  "CHR '':'' \<notin> set ''docs''
   \<and> rightsSubscriptions
        (snd (permissionsSubscribe 7 (Some ''docs'') (Some example_all_id) init_state))
       = [(scope_key ''docs'' example_all_id, [7])]
   \<and> calls (snd (permissionsSubscribe 7 (Some ''docs'') (Some example_all_id) init_state))
       = [(7, ARights [])]
   \<and> fst (permissionsSubscribe 7 (Some ''docs'') None init_state) = Threw TypeError
   \<and> rightsSubscriptions (snd (permissionsSubscribe 7 (Some ''docs'') None init_state)) = []
   \<and> calls (snd (permissionsSubscribe 7 (Some ''docs'') None init_state)) = []"
proof -
  have h: "CHR '':'' \<notin> set ''docs''" by simp
  from name_only_other_key [OF h, where f = 7 and allId = example_all_id and xs = "[]"] h
  show ?thesis
    by (simp add: run_def Let_def init_state_def permissionsSubscribe_def scope_key_def
        rightsOf_def example_all_id_def)
qed

text \<open>
  C4. With a callback subscribed to the name \<open>a:b\<close> and the id \<open>c\<close>, setting
  permissions that give \<open>create\<close> on that name and id and \<open>read\<close> on the name \<open>a\<close>
  and the id \<open>b\<close> calls the callback with \<open>read\<close>: the key \<open>a:b:c\<close> is split at its
  first two colons. The value of the subscribed scope is \<open>create\<close>.
\<close>

theorem permissionsSet_colon_name:
  "rightsSubscriptions colon_state = [(''a:b:c'', [7])]
   \<and> calls colon_state = [(7, ARights [])]
   \<and> calls (permissionsSet [(''a:b'', [(''c'', 1)]), (''a'', [(''b'', 2)])] colon_state)
       = [(7, ARights []), (7, ARights [(Read, True)])]
   \<and> rightsOf (permissions
        (permissionsSet [(''a:b'', [(''c'', 1)]), (''a'', [(''b'', 2)])] colon_state))
        ''a:b'' ''c'' = [(Create, True)]"
  by (simp add: colon_state_def permissionsSubscribe_def init_state_def permissionsSet_def
      Let_def scope_key_def rightsOf_def keyRights_def decodePermissions_def decodeEntities_def
      decodeRights_unfold clone_def)

text \<open>
  C5. A callback subscribed by the name \<open>a:b\<close> alone, which returns because a
  list is already under the key \<open>a:b\<close>, is not found by the matching unsubscribe:
  the first call returns \<open>false\<close>, the handle's \<open>unsubscribe\<close> changes nothing, and
  the callback is still called when the permissions are set.
\<close>

theorem name_only_unsubscribe_fails:
  "fst (permissionsSubscribe 7 (Some ''a:b'') None joined_state)
     = Returned \<lparr>data = AEntities [],
                 unsubscribe_fn = UnsubPermissions 7 (Some ''a:b'') None\<rparr>
   \<and> rightsSubscriptions name_only_state = [(''a:b'', [1, 7])]
   \<and> permissionsUnsubscribe allId 7 (Some ''a:b'') None name_only_state
       = (False, name_only_state)
   \<and> run_unsubscribe allId (UnsubPermissions 7 (Some ''a:b'') None) name_only_state
       = name_only_state
   \<and> calls (permissionsSet [] name_only_state)
       = calls name_only_state @ [(1, ARights []), (7, ARights [])]"
  by (simp add: name_only_state_def joined_state_def permissionsSubscribe_def
      permissionsUnsubscribe_def init_state_def permissionsSet_def Let_def scope_key_def
      rightsOf_def keyRights_def decodePermissions_def clone_def)

text \<open>
  C6. When the sign-out request resolves with \<open>true\<close>, \<open>signout\<close> clears the
  session token, sets the user to \<open>false\<close> and the permissions to the empty map;
  the user callbacks are called with \<open>false\<close>, the all-permissions callbacks with
  \<open>{}\<close> and every callback of every scope key with \<open>{}\<close>, and the promise
  resolves with the value received. When the request rejects, the promise rejects
  with the same error and the state is untouched.
\<close>

theorem signout_effect:
  "(let r = signout (ExtResolves True) st; st' = snd r in
      fst r = Resolved True \<and> session st' = None \<and> user st' = None \<and> permissions st' = []
      \<and> userSubscriptions st' = userSubscriptions st
      \<and> permissionsSubscriptions st' = permissionsSubscriptions st
      \<and> rightsSubscriptions st' = rightsSubscriptions st
      \<and> calls st' = calls st
          @ map (\<lambda>f. (f, AUser None)) (userSubscriptions st)
          @ map (\<lambda>f. (f, APermissions [])) (permissionsSubscriptions st)
          @ concat (map (\<lambda>(k, fs). map (\<lambda>f. (f, ARights [])) fs) (rightsSubscriptions st))
      \<and> (\<forall>k fs f. (k, fs) \<in> set (rightsSubscriptions st) \<and> f \<in> set fs
            \<longrightarrow> (f, ARights []) \<in> set (drop (length (calls st)) (calls st'))))
   \<and> fst (signout (ExtResolves b) st) = Resolved b
   \<and> signout (ExtRejects e) st = (Rejected e, st)"
proof -
  have a: "signout (ExtResolves True) st =
     (Resolved True, permissionsSet [] (set_user None (st\<lparr>session := None\<rparr>)))"
    by (simp add: signout_def)
  have b: "fst (signout (ExtResolves b) st) = Resolved b"
    by (simp add: signout_def)
  have c: "signout (ExtRejects e) st = (Rejected e, st)"
    by (simp add: signout_def)
  have d: "\<forall>k fs f. (k, fs) \<in> set (rightsSubscriptions st) \<and> f \<in> set fs
            \<longrightarrow> (f, ARights []) \<in> set (drop (length (calls st))
                  (calls (permissionsSet [] (set_user None (st\<lparr>session := None\<rparr>)))))"
  proof (intro allI impI)
    fix k fs f
    assume "(k, fs) \<in> set (rightsSubscriptions st) \<and> f \<in> set fs"
    then have "(f, ARights []) \<in> set (concat (map (\<lambda>(k, fs). map (\<lambda>f. (f, ARights [])) fs)
        (rightsSubscriptions st)))"
      using scoped_calls_mem [of k fs "rightsSubscriptions st" f] by simp
    then show "(f, ARights []) \<in> set (drop (length (calls st))
                  (calls (permissionsSet [] (set_user None (st\<lparr>session := None\<rparr>)))))"
      by (simp add: signed_out)
  qed
  show ?thesis
    unfolding Let_def a using b c d by (simp add: signed_out)
qed

theorem signout_effect_witness:
  "(''docs:e1'', [3]) \<in> set (rightsSubscriptions
        (init_state\<lparr>session := Some ''tok'', userSubscriptions := [1],
           permissionsSubscriptions := [2], rightsSubscriptions := [(''docs:e1'', [3])]\<rparr>))
   \<and> (3::nat) \<in> set [3]
   \<and> calls (snd (signout (ExtResolves True)
        (init_state\<lparr>session := Some ''tok'', userSubscriptions := [1],
           permissionsSubscriptions := [2], rightsSubscriptions := [(''docs:e1'', [3])]\<rparr>)))
      = [(1, AUser None), (2, APermissions []), (3, ARights [])]
   \<and> (3, ARights []) \<in> set (calls (snd (signout (ExtResolves True)
        (init_state\<lparr>session := Some ''tok'', userSubscriptions := [1],
           permissionsSubscriptions := [2], rightsSubscriptions := [(''docs:e1'', [3])]\<rparr>))))"
  using signout_effect [of "init_state\<lparr>session := Some ''tok'', userSubscriptions := [1],
           permissionsSubscriptions := [2], rightsSubscriptions := [(''docs:e1'', [3])]\<rparr>"]
  by (simp add: Let_def init_state_def)

text \<open>
  C7. When the request for the user inside \<open>update\<close> rejects with an error that
  has no \<open>handle\<close> function, the promise rejects with that same error and the
  state is untouched. When the error has a \<open>handle\<close> function, that function is
  called with the code and the message of the error, the promise is not rejected,
  and nothing else changes.
\<close>

theorem update_rejects:
  "(handle e = None \<longrightarrow> update (ExtRejects e) st = (Rejected e, st))
   \<and> (handle e = Some h \<longrightarrow>
        update (ExtRejects e) st =
          (Unsettled, st\<lparr>calls := calls st @ [(h, AErrorJson (code e) (msg e))]\<rparr>))"
  by (simp add: update_def)

theorem update_rejects_witness:
  "handle \<lparr>code = 102, msg = ''no rights'', handle = None\<rparr> = None
   \<and> update (ExtRejects \<lparr>code = 102, msg = ''no rights'', handle = None\<rparr>) init_state
       = (Rejected \<lparr>code = 102, msg = ''no rights'', handle = None\<rparr>, init_state)
   \<and> handle \<lparr>code = 102, msg = ''no rights'', handle = Some 9\<rparr> = Some 9
   \<and> update (ExtRejects \<lparr>code = 102, msg = ''no rights'', handle = Some 9\<rparr>) init_state
       = (Unsettled, init_state\<lparr>calls := [(9, AErrorJson 102 ''no rights'')]\<rparr>)"
  using update_rejects [of "\<lparr>code = 102, msg = ''no rights'', handle = None\<rparr>" init_state]
    update_rejects [of "\<lparr>code = 102, msg = ''no rights'', handle = Some 9\<rparr>" init_state 9]
  by (simp add: init_state_def)

text \<open>
  C8. \<open>onNoSession\<close> with an argument that is not a function throws an error and
  leaves the state, the registered callback included, as it was. With a function
  it replaces the registered callback; when the session is later reported as
  invalid, the callback registered last is the only one called without argument.
\<close>

theorem onNoSession_effect:
  "((\<forall>f. v \<noteq> JFun f) \<longrightarrow>
      onNoSession v st = (Threw (Error ''onNoSession() called with an invalid callback''), st))
   \<and> onNoSession (JFun g) st = (Returned (), st\<lparr>noSession := Some g\<rparr>)
   \<and> (let st1 = snd (onNoSession (JFun f) st);
           st2 = snd (onNoSession (JFun g) st1);
           st3 = noSessionTrap st2
       in noSession st2 = Some g
          \<and> filter (\<lambda>e. snd e = ANone) (drop (length (calls st2)) (calls st3)) = [(g, ANone)])"
proof -
  have a: "(\<forall>f. v \<noteq> JFun f) \<longrightarrow>
      onNoSession v st = (Threw (Error ''onNoSession() called with an invalid callback''), st)"
    by (cases v) (simp_all add: onNoSession_def)
  have b: "\<And>g s. onNoSession (JFun g) s = (Returned (), s\<lparr>noSession := Some g\<rparr>)"
    by (simp add: onNoSession_def)
  have c: "\<And>s. noSession s = Some g \<Longrightarrow>
      filter (\<lambda>e. snd e = ANone) (drop (length (calls s)) (calls (noSessionTrap s))) = [(g, ANone)]"
    by (simp add: noSessionTrap_def signed_out Let_def filter_none_map filter_none_scoped)
  show ?thesis
    unfolding Let_def using a b [of g st] c [of "st\<lparr>noSession := Some g\<rparr>"] by (simp add: b)
qed

theorem onNoSession_effect_witness:
  "(\<forall>f. JStr ''callback'' \<noteq> JFun f)
   \<and> onNoSession (JStr ''callback'') (init_state\<lparr>noSession := Some 4\<rparr>)
       = (Threw (Error ''onNoSession() called with an invalid callback''),
          init_state\<lparr>noSession := Some 4\<rparr>)
   \<and> calls (noSessionTrap (snd (onNoSession (JFun 6) (snd (onNoSession (JFun 5) init_state)))))
       = [(6, ANone)]"
  using onNoSession_effect [of "JStr ''callback''" "init_state\<lparr>noSession := Some 4\<rparr>"]
    onNoSession_effect [of JUndefined init_state 6 5]
  by (simp add: Let_def init_state_def onNoSession_def noSessionTrap_def permissionsSet_empty
      set_user_def clone_def)

text \<open>
  C9. A subscription by name alone on the module as loaded leaves the key
  \<open>docs\<close> with an empty list of callbacks in \<open>_rightsAllSubscriptions\<close>, the
  part of the registry that is keyed by name. No later call of the module,
  unsubscribing included, removes or fills that entry.
\<close>

theorem stale_name_entry:
  "rightsAllSubscriptions stale_state = [(''docs'', [])]
   \<and> \<not> registry_ok (rightsAllSubscriptions stale_state)
   \<and> map_of (rightsAllSubscriptions (run allId xs stale_state)) ''docs'' = Some []
   \<and> \<not> registry_ok (rightsAllSubscriptions (run allId xs stale_state))"
proof -
  have a: "rightsAllSubscriptions stale_state = [(''docs'', [])]"
    by (simp add: stale_state_def permissionsSubscribe_def init_state_def)
  then have m: "map_of (rightsAllSubscriptions stale_state) ''docs'' = Some []" by simp
  then have b: "\<not> registry_ok (rightsAllSubscriptions stale_state)"
    unfolding registry_ok_def by blast
  from m have c: "map_of (rightsAllSubscriptions (run allId xs stale_state)) ''docs'' = Some []"
    by (rule stale_run)
  then have d: "\<not> registry_ok (rightsAllSubscriptions (run allId xs stale_state))"
    unfolding registry_ok_def by blast
  from a b c d show ?thesis by blast
qed

theorem stale_name_entry_witness:
  "rightsAllSubscriptions
      (run example_all_id [OpPermissionsUnsubscribe 7 (Some ''docs'') None] stale_state)
     = [(''docs'', [])]
   \<and> \<not> registry_ok (rightsAllSubscriptions
        (run example_all_id [OpPermissionsUnsubscribe 7 (Some ''docs'') None] stale_state))"
  using stale_name_entry [of example_all_id "[OpPermissionsUnsubscribe 7 (Some ''docs'') None]"]
  by (simp add: run_def stale_state_def permissionsSubscribe_def permissionsUnsubscribe_def
      init_state_def scope_key_def Let_def)

text \<open>
  C10. When the request for the user inside \<open>update\<close> resolves with a falsy value,
  the promise of \<open>update\<close> is neither resolved nor rejected and the state is
  untouched. The same holds for \<open>signin\<close> with an email and password when the
  sign-in request resolves with a falsy value, whatever the request for the user
  would have answered.
\<close>

theorem falsy_never_settles:
  "update (ExtResolves None) st = (Unsettled, st)
   \<and> signin (Credentials c) (ExtResolves None) rd st = (Unsettled, st)"
  by (simp add: update_def signin_def)

end
